theory Spec2Isabelle
  imports Main "HOL-Library.Sublist"
begin

section \<open>The chat client of \<^verbatim>\<open>src/App.tsx\<close>: data model\<close>

text \<open>
  The conversation logic of the application lives in the hook \<^verbatim>\<open>useChatHandlers\<close> (lines 25-200)
  and in the state declared by the component \<^verbatim>\<open>App\<close> (lines 388-411). The embedding below keeps
  the names of the source. JavaScript strings are modelled as \<^typ>\<open>string\<close>, every character
  read as one code unit below 256; \<^verbatim>\<open>Date.now()\<close> returns an \<^typ>\<open>int\<close> that the handler
  receives as an argument, once per call of the clock.

  \<^verbatim>\<open>type Message = { id: number; type: 'user' | 'bot'; content: string;
                  feedback?: 'Like' | 'Dislike' | null; isLoading?: boolean }\<close>

  The optional field \<^verbatim>\<open>feedback\<close> is an option (\<^verbatim>\<open>undefined\<close> and \<^verbatim>\<open>null\<close> are both
  \<^term>\<open>None\<close>: the code only ever compares the field with \<^verbatim>\<open>'Like'\<close> or \<^verbatim>\<open>'Dislike'\<close>),
  and the optional flag \<^verbatim>\<open>isLoading\<close> is a boolean (the code only tests its truthiness, and
  \<^verbatim>\<open>undefined\<close> is falsy). The fields \<^verbatim>\<open>id\<close>, \<^verbatim>\<open>type\<close> and \<^verbatim>\<open>isLoading\<close> of a message carry
  the prefix \<open>msg_\<close>, since \<open>id\<close> is a constant of HOL and \<open>isLoading\<close> is also a field of the
  state.
\<close>

datatype msg_type = User | Bot

datatype feedback_type = Like | Dislike

record Message =
  msg_id :: int
  msg_type :: msg_type
  content :: string
  feedback :: "feedback_type option"
  msg_isLoading :: bool

text \<open>
  The remote session (\<^verbatim>\<open>Chat\<close> of the package \<^verbatim>\<open>@google/genai\<close>) is an external object. The
  model keeps what the program hands to it: the \<^verbatim>\<open>history\<close> given to \<^verbatim>\<open>ai.chats.create\<close>
  (entries \<^verbatim>\<open>{ role, parts: [{ text }] }\<close>) and the texts passed to \<^verbatim>\<open>sendMessage\<close>, in order.
\<close>

record Content =
  role :: string
  parts :: "string list"

record Chat =
  history :: "Content list"
  sent :: "string list"

text \<open>
  The state of \<^verbatim>\<open>App\<close> that the handlers read and write: the React states \<^verbatim>\<open>messages\<close>,
  \<^verbatim>\<open>message\<close> (the text of the input box) and \<^verbatim>\<open>isLoading\<close>, and the ref \<^verbatim>\<open>chatRef\<close>.
  \<open>awaiting\<close> says that a call of \<^verbatim>\<open>handleSendMessage\<close> is suspended at the \<^verbatim>\<open>await\<close> of
  line 66, its continuation (lines 67-80) still to run.
\<close>

record state =
  messages :: "Message list"
  message :: string
  isLoading :: bool
  chatRef :: "Chat option"
  awaiting :: bool

section \<open>Strings\<close>

text \<open>
  \<^verbatim>\<open>String.prototype.trim\<close> removes white space and line terminators from both ends. Of the
  code units it removes, those below 256 are TAB, LF, VT, FF, CR, SP and NBSP.
\<close>

definition is_ws :: "char \<Rightarrow> bool" where
  "is_ws c = (of_char c \<in> {9, 10, 11, 12, 13, 32, 160 :: nat})"

definition trim :: "string \<Rightarrow> string" where
  "trim s = rev (dropWhile is_ws (rev (dropWhile is_ws s)))"

text \<open>
  \<^verbatim>\<open>s.replace(pat, rep)\<close> with a string pattern replaces the first occurrence of \<open>pat\<close> in
  \<open>s\<close>, wherever it is, and leaves \<open>s\<close> alone when there is none. (The replacement strings of
  the program hold no \<^verbatim>\<open>$\<close>, so no substitution pattern is involved.)
\<close>

fun js_replace :: "string \<Rightarrow> string \<Rightarrow> string \<Rightarrow> string" where
  "js_replace pat rep [] = (if pat = [] then rep else [])"
| "js_replace pat rep (c # cs) =
     (if prefix pat (c # cs) then rep @ drop (length pat) (c # cs)
      else c # js_replace pat rep cs)"

definition REGENERATED :: string where
  "REGENERATED = ''[REGENERATED] ''"

definition apology :: string where
  "apology = ''Sorry, I encountered an error. Please try again.''"

section \<open>The handlers\<close>

text \<open>
  Lines 69-71 and 75-77: \<^verbatim>\<open>prev.map(msg => msg.isLoading ? { ...msg, content: text,
  isLoading: false } : msg)\<close>.
\<close>

definition resolve_loading :: "string \<Rightarrow> Message list \<Rightarrow> Message list" where
  "resolve_loading text prev =
     map (\<lambda>msg. if msg_isLoading msg then msg\<lparr>content := text, msg_isLoading := False\<rparr> else msg) prev"

text \<open>
  Lines 55-58: the history of a new session, from the \<^verbatim>\<open>messages\<close> of the render in which the
  handler was created.
\<close>

definition history_of :: "Message list \<Rightarrow> Content list" where
  "history_of msgs =
     map (\<lambda>msg. \<lparr>role = (if msg_type msg = User then ''user'' else ''model''),
                 parts = [content msg]\<rparr>) msgs"

text \<open>The \<^verbatim>\<open>catch\<close> and \<^verbatim>\<open>finally\<close> blocks, lines 73-80.\<close>

definition catch_finally :: "state \<Rightarrow> state" where
  "catch_finally s = s\<lparr>messages := resolve_loading apology (messages s), isLoading := False\<rparr>"

text \<open>
  \<^verbatim>\<open>handleSendMessage\<close>, lines 34-66: the part that runs synchronously, up to the \<^verbatim>\<open>await\<close>.
  \<open>now1\<close> and \<open>now2\<close> are the two readings of \<^verbatim>\<open>Date.now()\<close> (lines 39 and 47). \<open>create_ok\<close>
  is the environment's answer to lines 53-63: whether \<^verbatim>\<open>new GoogleGenAI\<close> and
  \<^verbatim>\<open>ai.chats.create\<close> return or throw. If they throw, the \<^verbatim>\<open>catch\<close> and \<^verbatim>\<open>finally\<close> blocks run
  at once, before the handler returns, and \<^verbatim>\<open>chatRef.current\<close> stays \<^verbatim>\<open>null\<close>.
\<close>

definition handleSendMessage :: "int \<Rightarrow> int \<Rightarrow> bool \<Rightarrow> state \<Rightarrow> state" where
  "handleSendMessage now1 now2 create_ok s =
     (if trim (message s) = [] \<or> isLoading s then s
      else
        let newMessage = \<lparr>msg_id = now1, msg_type = User, content = trim (message s),
                          feedback = None, msg_isLoading = False\<rparr>;
            s1 = s\<lparr>isLoading := True,
                   messages := messages s @
                     [newMessage,
                      \<lparr>msg_id = now2 + 1, msg_type = Bot, content = [],
                       feedback = None, msg_isLoading = True\<rparr>],
                   message := []\<rparr>
        in case chatRef s1 of
             Some chat \<Rightarrow>
               s1\<lparr>chatRef := Some (chat\<lparr>sent := sent chat @ [content newMessage]\<rparr>),
                  awaiting := True\<rparr>
           | None \<Rightarrow>
               if create_ok
               then s1\<lparr>chatRef := Some \<lparr>history = history_of (messages s),
                                        sent = [content newMessage]\<rparr>,
                       awaiting := True\<rparr>
               else catch_finally s1)"

text \<open>
  The continuation of \<^verbatim>\<open>handleSendMessage\<close> after the \<^verbatim>\<open>await\<close>, lines 66-80: the promise of
  \<^verbatim>\<open>sendMessage\<close> is fulfilled with a response whose text is \<open>Returns text\<close>, or it is rejected
  (\<open>Throws\<close>). It runs only for a suspended call.
\<close>

datatype response = Returns string | Throws

definition settle :: "response \<Rightarrow> state \<Rightarrow> state" where
  "settle r s =
     (if \<not> awaiting s then s
      else case r of
             Returns aiResponseText \<Rightarrow>
               s\<lparr>messages := resolve_loading aiResponseText (messages s),
                 isLoading := False, awaiting := False\<rparr>
           | Throws \<Rightarrow> (catch_finally s)\<lparr>awaiting := False\<rparr>)"

text \<open>\<^verbatim>\<open>handleNewChat\<close>, lines 90-94.\<close>

definition handleNewChat :: "state \<Rightarrow> state" where
  "handleNewChat s = s\<lparr>messages := [], message := [], chatRef := None\<rparr>"

text \<open>\<^verbatim>\<open>handleRegenerate\<close>, lines 96-102.\<close>

definition handleRegenerate :: "int \<Rightarrow> state \<Rightarrow> state" where
  "handleRegenerate messageId s =
     s\<lparr>messages :=
         map (\<lambda>msg. if msg_id msg = messageId
                    then msg\<lparr>content := REGENERATED @ js_replace REGENERATED [] (content msg)\<rparr>
                    else msg) (messages s)\<rparr>"

text \<open>\<^verbatim>\<open>handleFeedback\<close>, lines 108-112.\<close>

definition handleFeedback :: "int \<Rightarrow> feedback_type \<Rightarrow> state \<Rightarrow> state" where
  "handleFeedback messageId feedbackType s =
     s\<lparr>messages :=
         map (\<lambda>msg. if msg_id msg = messageId
                    then msg\<lparr>feedback :=
                           (if feedback msg = Some feedbackType then None else Some feedbackType)\<rparr>
                    else msg) (messages s)\<rparr>"

text \<open>The state of \<^verbatim>\<open>App\<close> before any event, lines 390-409.\<close>

definition initial_messages :: "Message list" where
  "initial_messages =
     [\<lparr>msg_id = 1, msg_type = User,
       content = ''What is VEDICSTEM and how does it integrate traditional knowledge with modern science?'',
       feedback = None, msg_isLoading = False\<rparr>,
      \<lparr>msg_id = 2, msg_type = Bot,
       content = ''VEDICSTEM is an innovative approach that bridges ancient Vedic wisdom with contemporary STEM (Science, Technology, Engineering, and Mathematics) education. It explores how traditional Indian knowledge systems, including mathematics, astronomy, medicine, and engineering principles found in ancient texts, align with and complement modern scientific understanding. This integration helps students appreciate the rich scientific heritage while applying it to solve contemporary challenges.'',
       feedback = None, msg_isLoading = False\<rparr>]"

definition initial_state :: state where
  "initial_state =
     \<lparr>messages = initial_messages, message = [], isLoading = False, chatRef = None,
      awaiting = False\<rparr>"

section \<open>Sequences of events\<close>

text \<open>
  The program is single-threaded: each handler runs to its end (or to its \<^verbatim>\<open>await\<close>) before the
  next event is taken, and React renders the batched updates of a handler together. An
  observable point is the state between two events. \<open>Typing\<close> is the \<^verbatim>\<open>onChange\<close> of the
  input box (line 327).
\<close>

datatype event =
    Typing string
  | Send int int bool
  | Settle response
  | NewChat
  | Regenerate int
  | Feedback int feedback_type

fun step :: "state \<Rightarrow> event \<Rightarrow> state" where
  "step s (Typing text) = s\<lparr>message := text\<rparr>"
| "step s (Send now1 now2 create_ok) = handleSendMessage now1 now2 create_ok s"
| "step s (Settle r) = settle r s"
| "step s NewChat = handleNewChat s"
| "step s (Regenerate messageId) = handleRegenerate messageId s"
| "step s (Feedback messageId feedbackType) = handleFeedback messageId feedbackType s"

fun run :: "state \<Rightarrow> event list \<Rightarrow> state" where
  "run s [] = s"
| "run s (e # es) = run (step s e) es"

text \<open>The number of turns whose \<^verbatim>\<open>isLoading\<close> flag is set.\<close>

definition pending_count :: "state \<Rightarrow> nat" where
  "pending_count s = length (filter msg_isLoading (messages s))"

text \<open>The ids of the turns, in the order of the list.\<close>

definition ids :: "state \<Rightarrow> int list" where
  "ids s = map msg_id (messages s)"

text \<open>The text that the continuation writes into the loading turns.\<close>

definition settled_text :: "response \<Rightarrow> string" where
  "settled_text r = (case r of Returns aiResponseText \<Rightarrow> aiResponseText | Throws \<Rightarrow> apology)"

text \<open>
  Predicates on runs. \<open>no_reset_in_flight s evs\<close>: no \<open>NewChat\<close> of \<open>evs\<close> is taken while
  \<open>isLoading\<close> is set. \<open>user_edit\<close>: the events other than a reset and the end of the remote
  call. \<open>clocks_ahead s evs\<close>: at each accepted \<open>Send\<close> the first reading of the clock is above
  every id of the list and the second reading is not below the first.
\<close>

fun no_reset_in_flight :: "state \<Rightarrow> event list \<Rightarrow> bool" where
  "no_reset_in_flight s [] = True"
| "no_reset_in_flight s (e # es) =
     ((e = NewChat \<longrightarrow> \<not> isLoading s) \<and> no_reset_in_flight (step s e) es)"

fun user_edit :: "event \<Rightarrow> bool" where
  "user_edit (Settle r) = False"
| "user_edit NewChat = False"
| "user_edit e = True"

fun clock_ahead :: "state \<Rightarrow> event \<Rightarrow> bool" where
  "clock_ahead s (Send now1 now2 create_ok) =
     (trim (message s) = [] \<or> isLoading s
      \<or> ((\<forall>msg \<in> set (messages s). msg_id msg < now1) \<and> now1 \<le> now2))"
| "clock_ahead s e = True"

fun clocks_ahead :: "state \<Rightarrow> event list \<Rightarrow> bool" where
  "clocks_ahead s [] = True"
| "clocks_ahead s (e # es) = (clock_ahead s e \<and> clocks_ahead (step s e) es)"

text \<open>
  \<open>call_orphaned b s evs\<close> follows a run and says whether, at its end, the list has been reset
  while the call that is still outstanding was in flight: a \<open>NewChat\<close> taken while
  \<open>isLoading\<close> is set raises the mark, the settlement of the suspended call lowers it.
  \<open>not_settle\<close>: the events other than the end of the remote call.
\<close>

fun orphan_step :: "bool \<Rightarrow> state \<Rightarrow> event \<Rightarrow> bool" where
  "orphan_step b s NewChat = (b \<or> isLoading s)"
| "orphan_step b s (Settle r) = (b \<and> \<not> awaiting s)"
| "orphan_step b s e = b"

fun call_orphaned :: "bool \<Rightarrow> state \<Rightarrow> event list \<Rightarrow> bool" where
  "call_orphaned b s [] = b"
| "call_orphaned b s (e # es) = call_orphaned (orphan_step b s e) (step s e) es"

fun not_settle :: "event \<Rightarrow> bool" where
  "not_settle (Settle r) = False"
| "not_settle e = True"

text \<open>Invariants of the runs, used in the proofs below.\<close>

definition single_flight :: "state \<Rightarrow> bool" where
  "single_flight s =
     ((awaiting s \<longleftrightarrow> isLoading s) \<and> pending_count s \<le> 1
      \<and> (0 < pending_count s \<longrightarrow> isLoading s))"

definition exact_flight :: "state \<Rightarrow> bool" where
  "exact_flight s =
     ((awaiting s \<longleftrightarrow> isLoading s) \<and> (isLoading s \<longleftrightarrow> pending_count s = 1)
      \<and> pending_count s \<le> 1)"

definition placeholder_last :: "int \<Rightarrow> state \<Rightarrow> bool" where
  "placeholder_last i s =
     (awaiting s \<and> isLoading s \<and> messages s \<noteq> []
      \<and> msg_id (last (messages s)) = i \<and> msg_type (last (messages s)) = Bot
      \<and> msg_isLoading (last (messages s)))"

definition flight_marked :: "bool \<Rightarrow> state \<Rightarrow> bool" where
  "flight_marked b s =
     ((awaiting s \<longleftrightarrow> isLoading s) \<and> pending_count s \<le> 1
      \<and> (if b then isLoading s \<and> pending_count s = 0
          else (isLoading s \<longleftrightarrow> pending_count s = 1)))"

section \<open>The initial state\<close>

text \<open>
  C9. Before any user action the conversation is not empty: \<open>messages\<close> holds exactly two
  hardcoded turns, a user turn with id 1 followed by an assistant turn with id 2, neither
  pending; \<open>isLoading\<close> is false and there is no session. The list is empty only after
  \<^verbatim>\<open>handleNewChat\<close>.
\<close>

theorem initial_state_two_turns:
  "map msg_id (messages initial_state) = [1, 2]
   \<and> map msg_type (messages initial_state) = [User, Bot]
   \<and> map msg_isLoading (messages initial_state) = [False, False]
   \<and> map feedback (messages initial_state) = [None, None]
   \<and> length (messages initial_state) = 2
   \<and> messages initial_state \<noteq> []
   \<and> isLoading initial_state = False
   \<and> chatRef initial_state = None
   \<and> message initial_state = []
   \<and> messages (handleNewChat initial_state) = []"
  by (simp add: initial_state_def initial_messages_def handleNewChat_def)

section \<open>Facts about the handlers\<close>

lemma length_resolve_loading: "length (resolve_loading t prev) = length prev"
  by (simp add: resolve_loading_def)

lemma nth_resolve_loading:
  "j < length prev \<Longrightarrow> resolve_loading t prev ! j =
     (if msg_isLoading (prev ! j) then (prev ! j)\<lparr>content := t, msg_isLoading := False\<rparr>
      else prev ! j)"
  by (simp add: resolve_loading_def)

lemma filter_resolve_loading: "filter msg_isLoading (resolve_loading t prev) = []"
  by (induction prev) (simp_all add: resolve_loading_def)

lemma ids_resolve_loading: "map msg_id (resolve_loading t prev) = map msg_id prev"
  by (induction prev) (simp_all add: resolve_loading_def)

lemma messages_settle:
  "messages (settle r s) =
     (if awaiting s then resolve_loading (settled_text r) (messages s) else messages s)"
  by (cases r) (simp_all add: settle_def catch_finally_def settled_text_def)

lemma flags_settle:
  "isLoading (settle r s) = (if awaiting s then False else isLoading s)"
  "awaiting (settle r s) = False"
  by (cases r; simp add: settle_def catch_finally_def)+

lemma messages_send:
  "trim (message s) \<noteq> [] \<Longrightarrow> \<not> isLoading s \<Longrightarrow> chatRef s \<noteq> None \<or> create_ok \<Longrightarrow>
   messages (handleSendMessage now1 now2 create_ok s) =
     messages s @
       [\<lparr>msg_id = now1, msg_type = User, content = trim (message s), feedback = None,
         msg_isLoading = False\<rparr>,
        \<lparr>msg_id = now2 + 1, msg_type = Bot, content = [], feedback = None,
         msg_isLoading = True\<rparr>]"
  by (auto simp: handleSendMessage_def Let_def split: option.split)

lemma messages_send_failed:
  "trim (message s) \<noteq> [] \<Longrightarrow> \<not> isLoading s \<Longrightarrow> chatRef s = None \<Longrightarrow> \<not> create_ok \<Longrightarrow>
   messages (handleSendMessage now1 now2 create_ok s) =
     resolve_loading apology (messages s) @
       [\<lparr>msg_id = now1, msg_type = User, content = trim (message s), feedback = None,
         msg_isLoading = False\<rparr>,
        \<lparr>msg_id = now2 + 1, msg_type = Bot, content = apology, feedback = None,
         msg_isLoading = False\<rparr>]"
  by (simp add: handleSendMessage_def Let_def catch_finally_def resolve_loading_def)

lemma flags_send:
  "isLoading (handleSendMessage now1 now2 create_ok s) =
     (if trim (message s) = [] \<or> isLoading s then isLoading s
      else \<not> (chatRef s = None \<and> \<not> create_ok))"
  "awaiting (handleSendMessage now1 now2 create_ok s) =
     (if trim (message s) = [] \<or> isLoading s then awaiting s
      else if chatRef s = None \<and> \<not> create_ok then awaiting s else True)"
  by (simp_all add: handleSendMessage_def catch_finally_def Let_def split: option.split)

lemma flags_others:
  "isLoading (handleNewChat s) = isLoading s" "awaiting (handleNewChat s) = awaiting s"
  "isLoading (handleRegenerate i s) = isLoading s" "awaiting (handleRegenerate i s) = awaiting s"
  "isLoading (handleFeedback i k s) = isLoading s" "awaiting (handleFeedback i k s) = awaiting s"
  by (simp_all add: handleNewChat_def handleRegenerate_def handleFeedback_def)

subsection \<open>The number of loading turns\<close>

lemma pending_count_settle:
  "pending_count (settle r s) = (if awaiting s then 0 else pending_count s)"
  by (cases r)
     (simp_all add: settle_def catch_finally_def pending_count_def filter_resolve_loading)

lemma pending_count_send:
  "pending_count (handleSendMessage now1 now2 create_ok s) =
     (if trim (message s) = [] \<or> isLoading s then pending_count s
      else if chatRef s = None \<and> \<not> create_ok then 0
      else pending_count s + 1)"
  by (simp add: handleSendMessage_def catch_finally_def pending_count_def Let_def
      filter_resolve_loading split: option.split)

lemma pending_count_regenerate: "pending_count (handleRegenerate i s) = pending_count s"
proof -
  have "length (filter msg_isLoading (map (\<lambda>msg. if msg_id msg = i
          then msg\<lparr>content := REGENERATED @ js_replace REGENERATED [] (content msg)\<rparr>
          else msg) ms)) = length (filter msg_isLoading ms)" for ms :: "Message list"
    by (induction ms) simp_all
  then show ?thesis by (simp add: handleRegenerate_def pending_count_def)
qed

lemma pending_count_feedback: "pending_count (handleFeedback i k s) = pending_count s"
proof -
  have "length (filter msg_isLoading (map (\<lambda>msg. if msg_id msg = i
          then msg\<lparr>feedback := (if feedback msg = Some k then None else Some k)\<rparr>
          else msg) ms)) = length (filter msg_isLoading ms)" for ms :: "Message list"
    by (induction ms) simp_all
  then show ?thesis by (simp add: handleFeedback_def pending_count_def)
qed

lemma pending_count_newchat: "pending_count (handleNewChat s) = 0"
  by (simp add: handleNewChat_def pending_count_def)

lemma pending_count_typing: "pending_count (s\<lparr>message := t\<rparr>) = pending_count s"
  by (simp add: pending_count_def)

lemma single_flight_step: "single_flight s \<Longrightarrow> single_flight (step s e)"
  by (cases e)
     (auto simp: single_flight_def pending_count_settle pending_count_send flags_send flags_settle
        pending_count_regenerate pending_count_feedback pending_count_newchat flags_others
        pending_count_typing)

lemma single_flight_run: "single_flight s \<Longrightarrow> single_flight (run s evs)"
  by (induction evs arbitrary: s) (simp_all add: single_flight_step)

lemma exact_flight_step:
  "exact_flight s \<Longrightarrow> (e = NewChat \<longrightarrow> \<not> isLoading s) \<Longrightarrow> exact_flight (step s e)"
  by (cases e)
     (auto simp: exact_flight_def pending_count_settle pending_count_send flags_send flags_settle
        pending_count_regenerate pending_count_feedback pending_count_newchat flags_others
        pending_count_typing)

lemma exact_flight_run:
  "exact_flight s \<Longrightarrow> no_reset_in_flight s evs \<Longrightarrow> exact_flight (run s evs)"
  by (induction evs arbitrary: s) (simp_all add: exact_flight_step)

lemma flight_initial: "single_flight initial_state" "exact_flight initial_state"
  by (simp_all add: single_flight_def exact_flight_def initial_state_def initial_messages_def
      pending_count_def)

subsection \<open>The ids of the turns\<close>

lemma ids_settle: "ids (settle r s) = ids s"
  by (cases r) (simp_all add: ids_def settle_def catch_finally_def ids_resolve_loading)

lemma ids_send:
  "ids (handleSendMessage now1 now2 create_ok s) =
     (if trim (message s) = [] \<or> isLoading s then ids s else ids s @ [now1, now2 + 1])"
  by (simp add: ids_def handleSendMessage_def catch_finally_def Let_def ids_resolve_loading
      split: option.split)

lemma ids_regenerate: "ids (handleRegenerate i s) = ids s"
  by (simp add: ids_def handleRegenerate_def comp_def if_distrib [of msg_id] cong: if_cong)

lemma ids_feedback: "ids (handleFeedback i k s) = ids s"
  by (simp add: ids_def handleFeedback_def comp_def if_distrib [of msg_id] cong: if_cong)

lemma ids_step_sorted:
  assumes "sorted_wrt (<) (ids s)" and "clock_ahead s e"
  shows "sorted_wrt (<) (ids (step s e))"
proof (cases e)
  case (Send now1 now2 create_ok)
  show ?thesis
  proof (cases "trim (message s) = [] \<or> isLoading s")
    case True
    with Send assms show ?thesis by (simp add: ids_send)
  next
    case False
    with Send assms(2) have "\<forall>x \<in> set (ids s). x < now1" and "now1 \<le> now2"
      by (auto simp: ids_def)
    with assms(1) False Send show ?thesis
      by (auto simp: ids_send sorted_wrt_append)
  qed
next
  case (Typing t)
  with assms show ?thesis by (simp add: ids_def)
next
  case NewChat
  then show ?thesis by (simp add: ids_def handleNewChat_def)
next
  case (Settle r)
  with assms show ?thesis by (simp add: ids_settle)
next
  case (Regenerate i)
  with assms show ?thesis by (simp add: ids_regenerate)
next
  case (Feedback i k)
  with assms show ?thesis by (simp add: ids_feedback)
qed

lemma ids_run_sorted:
  "sorted_wrt (<) (ids s) \<Longrightarrow> clocks_ahead s evs \<Longrightarrow> sorted_wrt (<) (ids (run s evs))"
  by (induction evs arbitrary: s) (simp_all add: ids_step_sorted)

subsection \<open>The placeholder of a submission stays last until the call settles\<close>

lemma placeholder_last_send:
  "trim (message s) \<noteq> [] \<Longrightarrow> \<not> isLoading s \<Longrightarrow> chatRef s \<noteq> None \<or> create_ok \<Longrightarrow>
   placeholder_last (now2 + 1) (handleSendMessage now1 now2 create_ok s)"
  by (auto simp: placeholder_last_def messages_send flags_send)

lemma placeholder_last_step:
  assumes "placeholder_last i s" and "user_edit e"
  shows "placeholder_last i (step s e)"
proof (cases e)
  case (Typing t)
  with assms show ?thesis by (simp add: placeholder_last_def)
next
  case (Send now1 now2 create_ok)
  with assms show ?thesis by (simp add: placeholder_last_def handleSendMessage_def)
next
  case (Regenerate j)
  with assms show ?thesis
    by (simp add: placeholder_last_def handleRegenerate_def last_map)
next
  case (Feedback j k)
  with assms show ?thesis
    by (simp add: placeholder_last_def handleFeedback_def last_map)
next
  case (Settle r)
  with assms show ?thesis by simp
next
  case NewChat
  with assms show ?thesis by simp
qed

lemma placeholder_last_run:
  "placeholder_last i s \<Longrightarrow> list_all user_edit evs \<Longrightarrow> placeholder_last i (run s evs)"
  by (induction evs arbitrary: s) (simp_all add: placeholder_last_step)

lemma placeholder_last_settle:
  assumes "placeholder_last i s"
  shows "\<not> isLoading (settle r s) \<and> \<not> awaiting (settle r s) \<and> pending_count (settle r s) = 0
     \<and> messages (settle r s) \<noteq> []
     \<and> msg_id (last (messages (settle r s))) = i
     \<and> msg_type (last (messages (settle r s))) = Bot
     \<and> content (last (messages (settle r s))) = settled_text r
     \<and> \<not> msg_isLoading (last (messages (settle r s)))"
proof -
  from assms have a: "awaiting s" and n: "messages s \<noteq> []"
    and l: "msg_id (last (messages s)) = i" "msg_type (last (messages s)) = Bot"
      "msg_isLoading (last (messages s))"
    by (simp_all add: placeholder_last_def)
  have m: "messages (settle r s) = resolve_loading (settled_text r) (messages s)"
    using a by (simp add: messages_settle)
  have "last (resolve_loading (settled_text r) (messages s)) =
      (last (messages s))\<lparr>content := settled_text r, msg_isLoading := False\<rparr>"
    using n l(3) by (simp add: resolve_loading_def last_map)
  with a n l m show ?thesis
    by (simp add: flags_settle pending_count_def filter_resolve_loading)
       (simp add: resolve_loading_def)
qed

subsection \<open>The session\<close>

lemma chat_send_existing:
  "chatRef s = Some chat \<Longrightarrow> trim (message s) \<noteq> [] \<Longrightarrow> \<not> isLoading s \<Longrightarrow>
   chatRef (handleSendMessage now1 now2 create_ok s) =
     Some (chat\<lparr>sent := sent chat @ [trim (message s)]\<rparr>)"
  by (simp add: handleSendMessage_def Let_def)

lemma chat_send_created:
  "chatRef s = None \<Longrightarrow> trim (message s) \<noteq> [] \<Longrightarrow> \<not> isLoading s \<Longrightarrow>
   chatRef (handleSendMessage now1 now2 create_ok s) =
     (if create_ok then Some \<lparr>history = history_of (messages s), sent = [trim (message s)]\<rparr>
      else None)"
  by (simp add: handleSendMessage_def Let_def catch_finally_def)

lemma history_step:
  assumes "chatRef s \<noteq> None" and "e \<noteq> NewChat"
  shows "map_option history (chatRef (step s e)) = map_option history (chatRef s)"
proof (cases e)
  case (Send now1 now2 create_ok)
  from assms(1) obtain chat where c: "chatRef s = Some chat" by auto
  show ?thesis
  proof (cases "trim (message s) = [] \<or> isLoading s")
    case True
    with Send show ?thesis by (simp add: handleSendMessage_def)
  next
    case False
    with Send c show ?thesis by (simp add: chat_send_existing)
  qed
next
  case (Settle r)
  then show ?thesis by (cases r) (simp_all add: settle_def catch_finally_def)
next
  case (Typing t)
  then show ?thesis by simp
next
  case NewChat
  with assms show ?thesis by simp
next
  case (Regenerate i)
  then show ?thesis by (simp add: handleRegenerate_def)
next
  case (Feedback i k)
  then show ?thesis by (simp add: handleFeedback_def)
qed

lemma history_run:
  "chatRef s \<noteq> None \<Longrightarrow> NewChat \<notin> set evs \<Longrightarrow>
   map_option history (chatRef (run s evs)) = map_option history (chatRef s)"
proof (induction evs arbitrary: s)
  case Nil
  then show ?case by simp
next
  case (Cons e es)
  then have e: "e \<noteq> NewChat" and es: "NewChat \<notin> set es" by auto
  from history_step [OF Cons.prems(1) e]
  have h: "map_option history (chatRef (step s e)) = map_option history (chatRef s)" .
  with Cons.prems(1) have "chatRef (step s e) \<noteq> None" by (cases "chatRef (step s e)") auto
  from Cons.IH [OF this es] h show ?case by simp
qed

subsection \<open>Replacing the first occurrence\<close>

lemma js_replace_prefix: "js_replace pat rep (pat @ x) = rep @ x"
proof (cases "pat @ x")
  case Nil
  then show ?thesis by simp
next
  case (Cons c cs)
  then have eq: "c # cs = pat @ x" by simp
  have p: "prefix pat (c # cs)"
    unfolding eq by simp
  have "js_replace pat rep (c # cs) = rep @ drop (length pat) (c # cs)"
    using p by simp
  also have "\<dots> = rep @ x"
    unfolding eq by simp
  finally show ?thesis
    unfolding eq .
qed

lemma js_replace_absent: "\<not> sublist pat s \<Longrightarrow> js_replace pat rep s = s"
proof (induction s)
  case Nil
  then show ?case by (cases pat) simp_all
next
  case (Cons c cs)
  then show ?case by (auto simp: sublist_Cons_right)
qed

subsection \<open>Resets in flight\<close>

lemma flight_marked_step:
  "flight_marked b s \<Longrightarrow> flight_marked (orphan_step b s e) (step s e)"
  by (cases e)
     (auto simp: flight_marked_def pending_count_settle pending_count_send flags_send flags_settle
        pending_count_regenerate pending_count_feedback pending_count_newchat flags_others
        pending_count_typing split: if_splits)

lemma flight_marked_run:
  "flight_marked b s \<Longrightarrow> flight_marked (call_orphaned b s evs) (run s evs)"
  by (induction evs arbitrary: b s) (simp_all add: flight_marked_step)

lemma flight_marked_initial: "flight_marked False initial_state"
  by (simp add: flight_marked_def initial_state_def initial_messages_def pending_count_def)

lemma flags_sync_step:
  "(awaiting s \<longleftrightarrow> isLoading s) \<Longrightarrow> (awaiting (step s e) \<longleftrightarrow> isLoading (step s e))"
  by (cases e) (auto simp: flags_send flags_settle flags_others)

lemma flags_sync_run:
  "(awaiting s \<longleftrightarrow> isLoading s) \<Longrightarrow> (awaiting (run s evs) \<longleftrightarrow> isLoading (run s evs))"
  by (induction evs arbitrary: s) (simp_all add: flags_sync_step del: step.simps)

lemma settle_clears:
  "(awaiting s \<longleftrightarrow> isLoading s) \<Longrightarrow> \<not> isLoading (settle r s)"
  by (simp add: flags_settle)

lemma in_flight_step:
  "isLoading s \<and> awaiting s \<Longrightarrow> not_settle e \<Longrightarrow> isLoading (step s e) \<and> awaiting (step s e)"
  by (cases e) (simp_all add: flags_send flags_others)

lemma emptied_step:
  assumes "isLoading s \<and> awaiting s \<and> messages s = []" and "not_settle e"
  shows "isLoading (step s e) \<and> awaiting (step s e) \<and> messages (step s e) = []"
proof (cases e)
  case (Typing t)
  with assms show ?thesis by simp
next
  case (Send now1 now2 create_ok)
  with assms show ?thesis by (simp add: handleSendMessage_def)
next
  case (Settle r)
  with assms show ?thesis by simp
next
  case NewChat
  with assms show ?thesis by (simp add: handleNewChat_def)
next
  case (Regenerate i)
  with assms show ?thesis by (simp add: handleRegenerate_def)
next
  case (Feedback i k)
  with assms show ?thesis by (simp add: handleFeedback_def)
qed

lemma emptied_run:
  "isLoading s \<and> awaiting s \<and> messages s = [] \<Longrightarrow> list_all not_settle evs \<Longrightarrow>
   isLoading (run s evs) \<and> awaiting (run s evs) \<and> messages (run s evs) = []"
proof (induction evs arbitrary: s)
  case Nil
  then show ?case by simp
next
  case (Cons e es)
  from Cons.prems have "isLoading (step s e) \<and> awaiting (step s e) \<and> messages (step s e) = []"
    by (intro emptied_step) simp_all
  with Cons.IH [of "step s e"] Cons.prems(2) show ?case by simp
qed

lemma reset_in_flight_run:
  "isLoading s \<and> awaiting s \<Longrightarrow> list_all not_settle evs \<Longrightarrow> NewChat \<in> set evs \<Longrightarrow>
   awaiting (run s evs) \<and> messages (run s evs) = []"
proof (induction evs arbitrary: s)
  case Nil
  then show ?case by simp
next
  case (Cons e es)
  show ?case
  proof (cases "e = NewChat")
    case True
    with Cons.prems(1) have "isLoading (step s e) \<and> awaiting (step s e) \<and> messages (step s e) = []"
      by (simp add: handleNewChat_def)
    from emptied_run [OF this, of es] Cons.prems(2) show ?thesis by simp
  next
    case False
    with Cons.prems have k: "isLoading (step s e) \<and> awaiting (step s e)" and "NewChat \<in> set es"
      and "list_all not_settle es"
      by (simp_all add: in_flight_step del: step.simps)
    with Cons.IH [of "step s e"] show ?thesis by simp
  qed
qed

section \<open>Single flight\<close>

text \<open>
  C1 (as amended). At every observable point of every sequence of events from the initial
  state, at most one turn is loading, and a loading turn exists only while \<open>isLoading\<close> is
  set. \<open>isLoading\<close> is set if and only if exactly one turn is loading, except in one
  situation and only there: between a reset taken while \<open>isLoading\<close> is set and the
  settlement of the call that was in flight at that reset. In that interval \<open>isLoading\<close> is
  set and no turn is loading (\<^verbatim>\<open>handleNewChat\<close> empties the list and leaves \<open>isLoading\<close> as
  it is); the settlement clears \<open>isLoading\<close> and the equivalence holds again. In particular
  it holds along every run in which no reset is taken while \<open>isLoading\<close> is set.
\<close>

theorem single_flight_amended:
  "pending_count (run initial_state evs) \<le> 1
   \<and> (0 < pending_count (run initial_state evs) \<longrightarrow> isLoading (run initial_state evs))
   \<and> ((isLoading (run initial_state evs) \<longleftrightarrow> pending_count (run initial_state evs) = 1)
        \<longleftrightarrow> \<not> call_orphaned False initial_state evs)
   \<and> (call_orphaned False initial_state evs \<longrightarrow>
        isLoading (run initial_state evs) \<and> pending_count (run initial_state evs) = 0)
   \<and> (no_reset_in_flight initial_state evs \<longrightarrow>
        (isLoading (run initial_state evs) \<longleftrightarrow> pending_count (run initial_state evs) = 1))"
  using single_flight_run [OF flight_initial(1), of evs]
    exact_flight_run [OF flight_initial(2), of evs]
    flight_marked_run [OF flight_marked_initial, of evs]
  by (auto simp: single_flight_def exact_flight_def flight_marked_def split: if_splits)

theorem single_flight_amended_witness:
  "no_reset_in_flight initial_state [Typing ''Hello'', Send 1700000000000 1700000000000 True]
   \<and> isLoading (run initial_state [Typing ''Hello'', Send 1700000000000 1700000000000 True])
   \<and> pending_count (run initial_state [Typing ''Hello'', Send 1700000000000 1700000000000 True]) = 1
   \<and> \<not> call_orphaned False initial_state
        [Typing ''Hello'', Send 1700000000000 1700000000000 True, NewChat,
         Settle (Returns ''Hi''), Typing ''Again'', Send 1700000009000 1700000009000 True]
   \<and> isLoading (run initial_state
        [Typing ''Hello'', Send 1700000000000 1700000000000 True, NewChat,
         Settle (Returns ''Hi''), Typing ''Again'', Send 1700000009000 1700000009000 True])
   \<and> pending_count (run initial_state
        [Typing ''Hello'', Send 1700000000000 1700000000000 True, NewChat,
         Settle (Returns ''Hi''), Typing ''Again'', Send 1700000009000 1700000009000 True]) = 1
   \<and> call_orphaned False initial_state
        [Typing ''Bye'', Send 1700000000000 1700000000000 True, NewChat, Typing ''x'']
   \<and> pending_count (run initial_state
        [Typing ''Bye'', Send 1700000000000 1700000000000 True, NewChat, Typing ''x'']) = 0"
proof -
  let ?e0 = "[Typing ''Hello'', Send 1700000000000 1700000000000 True]"
  let ?e1 = "[Typing ''Hello'', Send 1700000000000 1700000000000 True, NewChat,
         Settle (Returns ''Hi''), Typing ''Again'', Send 1700000009000 1700000009000 True]"
  let ?e2 = "[Typing ''Bye'', Send 1700000000000 1700000000000 True, NewChat, Typing ''x'']"
  have h0: "no_reset_in_flight initial_state ?e0"
    by simp
  have l0: "isLoading (run initial_state ?e0)"
    by (simp add: initial_state_def handleSendMessage_def trim_def is_ws_def Let_def)
  have h1: "\<not> call_orphaned False initial_state ?e1"
    by (simp add: initial_state_def handleSendMessage_def handleNewChat_def settle_def
        trim_def is_ws_def Let_def)
  have l1: "isLoading (run initial_state ?e1)"
    by (simp add: initial_state_def handleSendMessage_def handleNewChat_def settle_def
        resolve_loading_def trim_def is_ws_def Let_def)
  have h2: "call_orphaned False initial_state ?e2"
    by (simp add: initial_state_def handleSendMessage_def handleNewChat_def
        trim_def is_ws_def Let_def)
  from h0 l0 single_flight_amended [of ?e0]
  have "pending_count (run initial_state ?e0) = 1" by blast
  moreover from h1 l1 single_flight_amended [of ?e1]
  have "pending_count (run initial_state ?e1) = 1" by blast
  moreover from h2 single_flight_amended [of ?e2]
  have "pending_count (run initial_state ?e2) = 0" by blast
  ultimately show ?thesis
    using h0 l0 h1 l1 h2 by blast
qed

text \<open>
  C1 as stated fails: the user types a text, sends it, and starts a new chat before the
  remote call settles. Then \<open>isLoading\<close> is set and no turn is loading.
\<close>

theorem single_flight_counterexample:
  "isLoading (run initial_state [Typing ''Hello'', Send 1700000000000 1700000000000 True, NewChat])
   \<and> pending_count
       (run initial_state [Typing ''Hello'', Send 1700000000000 1700000000000 True, NewChat]) = 0
   \<and> \<not> (isLoading
          (run initial_state [Typing ''Hello'', Send 1700000000000 1700000000000 True, NewChat])
        \<longleftrightarrow> pending_count
          (run initial_state [Typing ''Hello'', Send 1700000000000 1700000000000 True, NewChat]) = 1)"
  by (simp add: initial_state_def handleSendMessage_def handleNewChat_def pending_count_def
      trim_def is_ws_def Let_def)

section \<open>New chat\<close>

text \<open>
  C2 (as amended). For every state, \<^verbatim>\<open>handleNewChat\<close> yields a state whose list of turns is
  empty, whose input text is empty and whose session is absent; it leaves \<open>isLoading\<close> (and a
  suspended call) as they are, so \<open>isLoading\<close> is false afterwards exactly when it was false
  before. Resetting twice gives the same state as resetting once.
\<close>

theorem new_chat_amended:
  "messages (handleNewChat s) = []
   \<and> message (handleNewChat s) = []
   \<and> chatRef (handleNewChat s) = None
   \<and> isLoading (handleNewChat s) = isLoading s
   \<and> awaiting (handleNewChat s) = awaiting s
   \<and> handleNewChat (handleNewChat s) = handleNewChat s"
  by (simp add: handleNewChat_def)

text \<open>
  C2 as stated fails for a state with a submission in flight: after the reset \<open>isLoading\<close>
  is still set.
\<close>

theorem new_chat_counterexample:
  "\<not> (messages (handleNewChat (handleSendMessage 1700000000000 1700000000000 True
          (initial_state\<lparr>message := ''Hello''\<rparr>))) = []
      \<and> isLoading (handleNewChat (handleSendMessage 1700000000000 1700000000000 True
          (initial_state\<lparr>message := ''Hello''\<rparr>))) = False
      \<and> chatRef (handleNewChat (handleSendMessage 1700000000000 1700000000000 True
          (initial_state\<lparr>message := ''Hello''\<rparr>))) = None)"
  by (simp add: handleNewChat_def handleSendMessage_def initial_state_def trim_def is_ws_def
      Let_def)

section \<open>Ids\<close>

text \<open>
  C3 (as amended). Along every sequence of events in which, at each accepted submission, the
  first reading of the clock is above every id in the list and the second reading is not
  below the first, the ids of the turns stay strictly increasing in the order of the list,
  hence pairwise distinct. The two turns of one submission made in the same instant \<open>now\<close>
  receive the distinct ids \<open>now\<close> and \<open>now + 1\<close>.
\<close>

theorem ids_strictly_increasing:
  "(sorted_wrt (<) (ids s) \<and> clocks_ahead s evs \<longrightarrow>
      sorted_wrt (<) (ids (run s evs)) \<and> distinct (ids (run s evs)))
   \<and> (trim (message s) \<noteq> [] \<and> \<not> isLoading s \<longrightarrow>
      ids (handleSendMessage now now create_ok s) = ids s @ [now, now + 1])"
  using ids_run_sorted [of s evs] strict_sorted_iff [of "ids (run s evs)"]
  by (auto simp: ids_send)

theorem ids_strictly_increasing_witness:
  "sorted_wrt (<) (ids (initial_state\<lparr>message := ''a''\<rparr>))
   \<and> clocks_ahead (initial_state\<lparr>message := ''a''\<rparr>)
        [Send 1700000000000 1700000000000 True, Settle (Returns ''b''),
         Typing ''c'', Send 1700000000002 1700000000002 True]
   \<and> distinct (ids (run (initial_state\<lparr>message := ''a''\<rparr>)
        [Send 1700000000000 1700000000000 True, Settle (Returns ''b''),
         Typing ''c'', Send 1700000000002 1700000000002 True]))
   \<and> trim (message (initial_state\<lparr>message := ''a''\<rparr>)) \<noteq> []
   \<and> \<not> isLoading (initial_state\<lparr>message := ''a''\<rparr>)
   \<and> ids (handleSendMessage 5 5 True (initial_state\<lparr>message := ''a''\<rparr>)) = [1, 2, 5, 6]"
proof -
  have h1: "sorted_wrt (<) (ids (initial_state\<lparr>message := ''a''\<rparr>))"
    by (simp add: ids_def initial_state_def initial_messages_def)
  have h2: "clocks_ahead (initial_state\<lparr>message := ''a''\<rparr>)
        [Send 1700000000000 1700000000000 True, Settle (Returns ''b''),
         Typing ''c'', Send 1700000000002 1700000000002 True]"
    by (simp add: initial_state_def initial_messages_def handleSendMessage_def settle_def
        resolve_loading_def trim_def is_ws_def Let_def)
  have h3: "trim (message (initial_state\<lparr>message := ''a''\<rparr>)) \<noteq> []"
    "\<not> isLoading (initial_state\<lparr>message := ''a''\<rparr>)"
    "ids (initial_state\<lparr>message := ''a''\<rparr>) = [1, 2]"
    by (simp_all add: initial_state_def initial_messages_def trim_def is_ws_def ids_def)
  from h1 h2 h3 show ?thesis
    using ids_strictly_increasing [where s = "initial_state\<lparr>message := ''a''\<rparr>"
        and evs = "[Send 1700000000000 1700000000000 True, Settle (Returns ''b''),
         Typing ''c'', Send 1700000000002 1700000000002 True]" and now = 5 and create_ok = True]
    by simp
qed

text \<open>
  C3 as stated fails: a submission one millisecond after the clock reading of the previous
  placeholder gives the new user turn the id of that placeholder, \<open>now + 1\<close>.
\<close>

theorem ids_distinct_counterexample:
  "\<not> distinct (ids (run initial_state
      [Typing ''a'', Send 1700000000000 1700000000000 True, Settle (Returns ''b''),
       Typing ''c'', Send 1700000000001 1700000000001 True]))"
  by (simp add: ids_def initial_state_def initial_messages_def handleSendMessage_def settle_def
      resolve_loading_def trim_def is_ws_def Let_def)

section \<open>The session\<close>

text \<open>
  C4. For a submission that passes the guard: an existing session is kept, with the history
  it was created with (creation happens at most once until the next reset: the history of
  the session does not change along any sequence of events without a reset); when there is
  no session, the new one is created with the history that maps every turn that existed
  before the submission, in order, a user turn to the role \<^verbatim>\<open>user\<close> and an assistant turn
  to the role \<^verbatim>\<open>model\<close>, with the content as it is. The history has two entries fewer than
  the list after the submission: the new user turn and its placeholder are not in it, and
  the new text is what is sent.
\<close>

theorem session_created_once:
  assumes "trim (message s) \<noteq> []" and "\<not> isLoading s"
    and "s1 = handleSendMessage now1 now2 create_ok s"
  shows "(\<forall>chat. chatRef s = Some chat \<longrightarrow>
            chatRef s1 = Some (chat\<lparr>sent := sent chat @ [trim (message s)]\<rparr>)
            \<and> map_option history (chatRef s1) = Some (history chat))
       \<and> (chatRef s = None \<and> create_ok \<longrightarrow>
            map_option history (chatRef s1) =
              Some (map (\<lambda>msg. \<lparr>role = (if msg_type msg = User then ''user'' else ''model''),
                                parts = [content msg]\<rparr>) (messages s))
            \<and> map_option sent (chatRef s1) = Some [trim (message s)]
            \<and> take (length (messages s)) (messages s1) = messages s
            \<and> length (messages s1) = length (messages s) + 2
            \<and> map_option (\<lambda>chat. length (history chat)) (chatRef s1)
                = Some (length (messages s1) - 2))
       \<and> (chatRef s1 \<noteq> None \<and> NewChat \<notin> set evs \<longrightarrow>
            map_option history (chatRef (run s1 evs)) = map_option history (chatRef s1))"
proof -
  have a: "chatRef s1 = Some (chat\<lparr>sent := sent chat @ [trim (message s)]\<rparr>)
      \<and> map_option history (chatRef s1) = Some (history chat)" if "chatRef s = Some chat" for chat
    using that assms by (simp add: chat_send_existing)
  have b: "map_option history (chatRef s1) =
        Some (map (\<lambda>msg. \<lparr>role = (if msg_type msg = User then ''user'' else ''model''),
                          parts = [content msg]\<rparr>) (messages s))
      \<and> map_option sent (chatRef s1) = Some [trim (message s)]
      \<and> take (length (messages s)) (messages s1) = messages s
      \<and> length (messages s1) = length (messages s) + 2
      \<and> map_option (\<lambda>chat. length (history chat)) (chatRef s1) = Some (length (messages s1) - 2)"
    if "chatRef s = None \<and> create_ok"
    using that assms by (simp add: chat_send_created messages_send history_of_def)
  have c: "map_option history (chatRef (run s1 evs)) = map_option history (chatRef s1)"
    if "chatRef s1 \<noteq> None \<and> NewChat \<notin> set evs"
    using that history_run [of s1 evs] by simp
  from a b c show ?thesis by blast
qed

theorem session_created_once_witness:
  "map_option history (chatRef (handleSendMessage 5 5 True
      \<lparr>messages = [\<lparr>msg_id = 1, msg_type = User, content = ''A'', feedback = None,
                     msg_isLoading = False\<rparr>,
                    \<lparr>msg_id = 2, msg_type = Bot, content = ''B'', feedback = None,
                     msg_isLoading = False\<rparr>],
       message = ''C'', isLoading = False, chatRef = None, awaiting = False\<rparr>))
     = Some [\<lparr>role = ''user'', parts = [''A'']\<rparr>, \<lparr>role = ''model'', parts = [''B'']\<rparr>]
   \<and> map_option history (chatRef (run (handleSendMessage 5 5 True
      \<lparr>messages = [\<lparr>msg_id = 1, msg_type = User, content = ''A'', feedback = None,
                     msg_isLoading = False\<rparr>,
                    \<lparr>msg_id = 2, msg_type = Bot, content = ''B'', feedback = None,
                     msg_isLoading = False\<rparr>],
       message = ''C'', isLoading = False, chatRef = None, awaiting = False\<rparr>)
      [Settle (Returns ''D''), Typing ''E'', Send 9 9 True]))
     = Some [\<lparr>role = ''user'', parts = [''A'']\<rparr>, \<lparr>role = ''model'', parts = [''B'']\<rparr>]
   \<and> chatRef (handleSendMessage 9 9 True
      \<lparr>messages = [], message = ''E'', isLoading = False,
       chatRef = Some \<lparr>history = [\<lparr>role = ''user'', parts = [''A'']\<rparr>], sent = [''C'']\<rparr>,
       awaiting = False\<rparr>)
     = Some \<lparr>history = [\<lparr>role = ''user'', parts = [''A'']\<rparr>], sent = [''C'', ''E'']\<rparr>"
proof -
  let ?s = "\<lparr>messages = [\<lparr>msg_id = 1, msg_type = User, content = ''A'', feedback = None,
                     msg_isLoading = False\<rparr>,
                    \<lparr>msg_id = 2, msg_type = Bot, content = ''B'', feedback = None,
                     msg_isLoading = False\<rparr>],
       message = ''C'', isLoading = False, chatRef = None, awaiting = False\<rparr>"
  let ?t = "\<lparr>messages = [], message = ''E'', isLoading = False,
       chatRef = Some \<lparr>history = [\<lparr>role = ''user'', parts = [''A'']\<rparr>], sent = [''C'']\<rparr>,
       awaiting = False\<rparr>"
  have hs: "trim (message ?s) \<noteq> []" "\<not> isLoading ?s" "chatRef ?s = None"
    by (simp_all add: trim_def is_ws_def)
  have ht: "trim (message ?t) \<noteq> []" "\<not> isLoading ?t" "trim (message ?t) = ''E''"
    by (simp_all add: trim_def is_ws_def)
  have ev: "NewChat \<notin> set [Settle (Returns ''D''), Typing ''E'', Send 9 9 True]"
    by simp
  note w1 = session_created_once [of ?s _ 5 5 True
      "[Settle (Returns ''D''), Typing ''E'', Send 9 9 True]", OF hs(1) hs(2) refl]
  note w2 = session_created_once [of ?t _ 9 9 True "[]", OF ht(1) ht(2) refl]
  have a1: "map_option history (chatRef (handleSendMessage 5 5 True ?s)) =
      Some (map (\<lambda>msg. \<lparr>role = (if msg_type msg = User then ''user'' else ''model''),
                        parts = [content msg]\<rparr>) (messages ?s))"
    by (rule w1 [THEN conjunct2, THEN conjunct1, THEN mp, OF conjI [OF hs(3) TrueI],
          THEN conjunct1])
  have ne: "chatRef (handleSendMessage 5 5 True ?s) \<noteq> None"
    using a1 by auto
  have a2: "map_option history (chatRef (run (handleSendMessage 5 5 True ?s)
        [Settle (Returns ''D''), Typing ''E'', Send 9 9 True]))
      = map_option history (chatRef (handleSendMessage 5 5 True ?s))"
    by (rule w1 [THEN conjunct2, THEN conjunct2, THEN mp, OF conjI [OF ne ev]])
  have ct: "chatRef ?t = Some \<lparr>history = [\<lparr>role = ''user'', parts = [''A'']\<rparr>], sent = [''C'']\<rparr>"
    by simp
  have a3: "chatRef (handleSendMessage 9 9 True ?t) =
      Some (\<lparr>history = [\<lparr>role = ''user'', parts = [''A'']\<rparr>], sent = [''C'']\<rparr>
              \<lparr>sent := sent \<lparr>history = [\<lparr>role = ''user'', parts = [''A'']\<rparr>], sent = [''C'']\<rparr>
                        @ [trim (message ?t)]\<rparr>)"
    by (rule w2 [THEN conjunct1, THEN spec, THEN mp, OF ct, THEN conjunct1])
  show ?thesis
    by (simp only: a2 a1 a3 ht(3)) simp
qed

section \<open>Rejected submissions\<close>

text \<open>
  C5. If the input text trims to the empty string, or \<open>isLoading\<close> is already set, then
  \<^verbatim>\<open>handleSendMessage\<close> returns at once: the whole state is unchanged (turns, \<open>isLoading\<close>,
  session, input text), so no turn carrying an error text is added either.
\<close>

theorem send_rejected_noop:
  "trim (message s) = [] \<or> isLoading s \<Longrightarrow> handleSendMessage now1 now2 create_ok s = s"
  by (simp add: handleSendMessage_def)

theorem send_rejected_noop_witness:
  "trim (message (initial_state\<lparr>message := ''  ''\<rparr>)) = []
   \<and> handleSendMessage 1700000000000 1700000000000 True (initial_state\<lparr>message := ''  ''\<rparr>)
       = initial_state\<lparr>message := ''  ''\<rparr>
   \<and> isLoading (initial_state\<lparr>message := ''again'', isLoading := True\<rparr>)
   \<and> handleSendMessage 1700000000000 1700000000000 True
         (initial_state\<lparr>message := ''again'', isLoading := True\<rparr>)
       = initial_state\<lparr>message := ''again'', isLoading := True\<rparr>"
proof -
  have h1: "trim (message (initial_state\<lparr>message := ''  ''\<rparr>)) = []"
    by (simp add: trim_def is_ws_def)
  have h2: "isLoading (initial_state\<lparr>message := ''again'', isLoading := True\<rparr>)"
    by simp
  show ?thesis
    using h1 h2
      send_rejected_noop [of "initial_state\<lparr>message := ''  ''\<rparr>", OF disjI1 [OF h1]]
      send_rejected_noop [of "initial_state\<lparr>message := ''again'', isLoading := True\<rparr>",
        OF disjI2 [OF h2]]
    by simp
qed

section \<open>Accepted submissions\<close>

text \<open>
  C6 (as amended). For every submission that passes the guard, \<open>s1\<close> being the state when the
  handler suspends or returns and \<open>s2\<close> the state after the remote call has settled, \<open>evs\<close>
  the events taken in between: if the session cannot be created, the \<^verbatim>\<open>catch\<close> and
  \<^verbatim>\<open>finally\<close> blocks have run already in \<open>s1\<close>, the placeholder holds the apology text, is
  not loading, and \<open>isLoading\<close> is false. Otherwise \<open>s1\<close> holds the user turn and the loading
  placeholder, and \<open>isLoading\<close> is false in \<open>s2\<close> whatever \<open>evs\<close> is. If no reset is taken in
  between (typing, further send attempts, regenerate and feedback only), the placeholder
  (the last turn of \<open>s2\<close>, with id \<open>now2 + 1\<close>) holds the returned text if the call succeeded
  and the apology text if it failed, its loading flag is cleared and no turn is loading. If
  a reset is taken in between, the list of \<open>s2\<close> is empty: the placeholder is gone and the
  text is written nowhere.
\<close>

theorem submission_settles:
  assumes "trim (message s) \<noteq> []" and "\<not> isLoading s"
    and "s1 = handleSendMessage now1 now2 create_ok s"
    and "s2 = settle r (run s1 evs)"
    and "answer = (case r of Returns aiResponseText \<Rightarrow> aiResponseText | Throws \<Rightarrow> apology)"
    and "newMessage = \<lparr>msg_id = now1, msg_type = User, content = trim (message s),
                        feedback = None, msg_isLoading = False\<rparr>"
  shows "if chatRef s = None \<and> \<not> create_ok
         then \<not> isLoading s1 \<and> pending_count s1 = 0
              \<and> messages s1 = resolve_loading apology (messages s) @
                    [newMessage,
                     \<lparr>msg_id = now2 + 1, msg_type = Bot,
                      content = ''Sorry, I encountered an error. Please try again.'',
                      feedback = None, msg_isLoading = False\<rparr>]
         else isLoading s1
              \<and> messages s1 = messages s @
                    [newMessage,
                     \<lparr>msg_id = now2 + 1, msg_type = Bot, content = [], feedback = None,
                      msg_isLoading = True\<rparr>]
              \<and> \<not> isLoading s2
              \<and> (list_all user_edit evs \<longrightarrow>
                   pending_count s2 = 0 \<and> messages s2 \<noteq> []
                   \<and> msg_id (last (messages s2)) = now2 + 1
                   \<and> msg_type (last (messages s2)) = Bot
                   \<and> content (last (messages s2)) = answer
                   \<and> \<not> msg_isLoading (last (messages s2)))
              \<and> (evs = [] \<longrightarrow>
                   messages s2 = resolve_loading answer (messages s) @
                     [newMessage,
                      \<lparr>msg_id = now2 + 1, msg_type = Bot, content = answer, feedback = None,
                       msg_isLoading = False\<rparr>])
              \<and> (list_all not_settle evs \<and> NewChat \<in> set evs \<longrightarrow>
                   messages s2 = [] \<and> pending_count s2 = 0)"
proof (cases "chatRef s = None \<and> \<not> create_ok")
  case True
  with assms(1,2,3,6) show ?thesis
    by (simp add: flags_send messages_send_failed pending_count_def filter_resolve_loading
        apology_def)
next
  case False
  then have ok: "chatRef s \<noteq> None \<or> create_ok" by auto
  have ans: "answer = settled_text r"
    by (simp add: assms(5) settled_text_def)
  have m1: "messages s1 = messages s @
      [newMessage,
       \<lparr>msg_id = now2 + 1, msg_type = Bot, content = [], feedback = None, msg_isLoading = True\<rparr>]"
    using assms(1,2,3,6) ok by (simp add: messages_send)
  have l1: "isLoading s1" "awaiting s1"
    using assms(1,2,3) ok by (auto simp: flags_send)
  have "awaiting (run s1 evs) \<longleftrightarrow> isLoading (run s1 evs)"
    using l1 by (intro flags_sync_run) simp
  then have clean: "\<not> isLoading s2"
    by (simp add: assms(4) settle_clears)
  have fin: "pending_count s2 = 0 \<and> messages s2 \<noteq> []
      \<and> msg_id (last (messages s2)) = now2 + 1 \<and> msg_type (last (messages s2)) = Bot
      \<and> content (last (messages s2)) = answer \<and> \<not> msg_isLoading (last (messages s2))"
    if "list_all user_edit evs"
  proof -
    have "placeholder_last (now2 + 1) (run s1 evs)"
      using that assms(1-3) ok by (simp add: placeholder_last_send placeholder_last_run)
    from placeholder_last_settle [OF this, of r] show ?thesis
      by (simp add: assms(4) ans)
  qed
  have direct: "messages s2 = resolve_loading answer (messages s) @
      [newMessage,
       \<lparr>msg_id = now2 + 1, msg_type = Bot, content = answer, feedback = None,
        msg_isLoading = False\<rparr>]" if "evs = []"
    using that l1(2) m1 assms(6)
    by (simp add: assms(4) messages_settle ans resolve_loading_def)
  have lost: "messages s2 = [] \<and> pending_count s2 = 0"
    if "list_all not_settle evs \<and> NewChat \<in> set evs"
  proof -
    from that l1 have "awaiting (run s1 evs) \<and> messages (run s1 evs) = []"
      by (intro reset_in_flight_run) simp_all
    then show ?thesis
      by (simp add: assms(4) messages_settle pending_count_def resolve_loading_def)
  qed
  from False l1(1) m1 clean fin direct lost show ?thesis by simp
qed

theorem submission_settles_witness:
  "messages (settle (Returns ''Hi there'')
      (run (handleSendMessage 1700000000000 1700000000000 True
             ((handleNewChat initial_state)\<lparr>message := ''Hello''\<rparr>)) []))
     = [\<lparr>msg_id = 1700000000000, msg_type = User, content = ''Hello'', feedback = None,
         msg_isLoading = False\<rparr>,
        \<lparr>msg_id = 1700000000001, msg_type = Bot, content = ''Hi there'', feedback = None,
         msg_isLoading = False\<rparr>]
   \<and> \<not> isLoading (settle (Returns ''Hi there'')
      (run (handleSendMessage 1700000000000 1700000000000 True
             ((handleNewChat initial_state)\<lparr>message := ''Hello''\<rparr>)) []))
   \<and> content (last (messages (settle Throws
      (run (handleSendMessage 1700000000000 1700000000000 True
             ((handleNewChat initial_state)\<lparr>message := ''X''\<rparr>))
           [Typing ''more'', Send 1700000000100 1700000000100 True,
            Regenerate 1700000000001, Feedback 1700000000001 Like]))))
       = ''Sorry, I encountered an error. Please try again.''
   \<and> \<not> isLoading (settle Throws
      (run (handleSendMessage 1700000000000 1700000000000 True
             ((handleNewChat initial_state)\<lparr>message := ''X''\<rparr>))
           [Typing ''more'', Send 1700000000100 1700000000100 True,
            Regenerate 1700000000001, Feedback 1700000000001 Like]))
   \<and> messages (settle (Returns ''late'')
      (run (handleSendMessage 1700000000000 1700000000000 True
             ((handleNewChat initial_state)\<lparr>message := ''X''\<rparr>))
           [Feedback 1700000000001 Like, NewChat, Typing ''next''])) = []
   \<and> \<not> isLoading (settle (Returns ''late'')
      (run (handleSendMessage 1700000000000 1700000000000 True
             ((handleNewChat initial_state)\<lparr>message := ''X''\<rparr>))
           [Feedback 1700000000001 Like, NewChat, Typing ''next'']))"
proof -
  let ?a = "(handleNewChat initial_state)\<lparr>message := ''Hello''\<rparr>"
  let ?b = "(handleNewChat initial_state)\<lparr>message := ''X''\<rparr>"
  let ?evs = "[Typing ''more'', Send 1700000000100 1700000000100 True,
            Regenerate 1700000000001, Feedback 1700000000001 Like]"
  let ?rst = "[Feedback 1700000000001 Like, NewChat, Typing ''next'']"
  have ha: "trim (message ?a) \<noteq> []" "\<not> isLoading ?a"
    by (simp_all add: trim_def is_ws_def handleNewChat_def initial_state_def)
  have hb: "trim (message ?b) \<noteq> []" "\<not> isLoading ?b"
    by (simp_all add: trim_def is_ws_def handleNewChat_def initial_state_def)
  have he: "list_all user_edit ?evs" "list_all not_settle ?rst \<and> NewChat \<in> set ?rst"
    by simp_all
  have va: "messages ?a = []" "chatRef ?a = None" "chatRef ?b = None"
    by (simp_all add: handleNewChat_def)
  note wa = submission_settles [of ?a _ 1700000000000 1700000000000 True _
      "Returns ''Hi there''" "[]" _ _, OF ha refl refl refl refl]
  note wb = submission_settles [of ?b _ 1700000000000 1700000000000 True _
      Throws ?evs _ _, OF hb refl refl refl refl]
  note wc = submission_settles [of ?b _ 1700000000000 1700000000000 True _
      "Returns ''late''" ?rst _ _, OF hb refl refl refl refl]
  from wa have "messages (settle (Returns ''Hi there'')
      (run (handleSendMessage 1700000000000 1700000000000 True ?a) []))
     = [\<lparr>msg_id = 1700000000000, msg_type = User, content = ''Hello'', feedback = None,
         msg_isLoading = False\<rparr>,
        \<lparr>msg_id = 1700000000001, msg_type = Bot, content = ''Hi there'', feedback = None,
         msg_isLoading = False\<rparr>]"
    and "\<not> isLoading (settle (Returns ''Hi there'')
      (run (handleSendMessage 1700000000000 1700000000000 True ?a) []))"
    by (simp_all add: va resolve_loading_def trim_def is_ws_def)
  moreover from wb he(1) have "content (last (messages (settle Throws
      (run (handleSendMessage 1700000000000 1700000000000 True ?b) ?evs))))
       = ''Sorry, I encountered an error. Please try again.''"
    and "\<not> isLoading (settle Throws
      (run (handleSendMessage 1700000000000 1700000000000 True ?b) ?evs))"
    by (simp_all add: va apology_def)
  moreover from wc he(2) have "messages (settle (Returns ''late'')
      (run (handleSendMessage 1700000000000 1700000000000 True ?b) ?rst)) = []"
    and "\<not> isLoading (settle (Returns ''late'')
      (run (handleSendMessage 1700000000000 1700000000000 True ?b) ?rst))"
    by (simp_all add: va)
  ultimately show ?thesis by simp
qed

text \<open>
  C6 as stated fails: a submission passes the guard and the remote call succeeds, but the
  user starts a new chat before the call settles. The placeholder is gone at settlement, so
  no turn receives the returned text.
\<close>

theorem submission_counterexample:
  "trim (message (initial_state\<lparr>message := ''Hello''\<rparr>)) \<noteq> []
   \<and> \<not> isLoading (initial_state\<lparr>message := ''Hello''\<rparr>)
   \<and> messages (settle (Returns ''Hi there'')
        (run (handleSendMessage 1700000000000 1700000000000 True
               (initial_state\<lparr>message := ''Hello''\<rparr>)) [NewChat])) = []"
  by (simp add: initial_state_def handleSendMessage_def handleNewChat_def settle_def
      resolve_loading_def trim_def is_ws_def Let_def)

section \<open>Regenerate\<close>

text \<open>
  C7 (as amended). \<^verbatim>\<open>handleRegenerate\<close> rewrites the content of every turn whose id is the
  given one, whatever its role, and changes nothing else: turns with another id, the number
  and order of the turns, \<open>isLoading\<close>, the session and the input text stay as they are, and
  it is a no-op when no turn has that id. The new content is the marker
  \<^verbatim>\<open>[REGENERATED] \<close> followed by the old content without its first occurrence of the
  marker, wherever that occurrence is. Applying it twice gives the same state as applying it
  once. For a content that does not contain the marker, the content after two applications
  is the marker followed by that content, with exactly one marker in front.
\<close>

theorem regenerate_amended:
  "length (messages (handleRegenerate messageId s)) = length (messages s)
   \<and> (\<forall>j < length (messages s).
        (msg_id (messages s ! j) \<noteq> messageId \<longrightarrow>
           messages (handleRegenerate messageId s) ! j = messages s ! j)
      \<and> (msg_id (messages s ! j) = messageId \<longrightarrow>
           messages (handleRegenerate messageId s) ! j =
             (messages s ! j)\<lparr>content :=
                REGENERATED @ js_replace REGENERATED [] (content (messages s ! j))\<rparr>)
      \<and> (msg_id (messages s ! j) = messageId
           \<and> \<not> sublist REGENERATED (content (messages s ! j)) \<longrightarrow>
           content (messages (handleRegenerate messageId (handleRegenerate messageId s)) ! j)
             = REGENERATED @ content (messages s ! j)
           \<and> \<not> prefix (REGENERATED @ REGENERATED)
                 (content (messages (handleRegenerate messageId (handleRegenerate messageId s)) ! j))))
   \<and> (messageId \<notin> set (map msg_id (messages s)) \<longrightarrow> handleRegenerate messageId s = s)
   \<and> handleRegenerate messageId (handleRegenerate messageId s) = handleRegenerate messageId s
   \<and> isLoading (handleRegenerate messageId s) = isLoading s
   \<and> chatRef (handleRegenerate messageId s) = chatRef s
   \<and> message (handleRegenerate messageId s) = message s"
proof -
  have idem: "handleRegenerate messageId (handleRegenerate messageId s) = handleRegenerate messageId s"
    by (simp add: handleRegenerate_def comp_def js_replace_prefix cong: if_cong)
  have noop: "handleRegenerate messageId s = s" if "messageId \<notin> set (map msg_id (messages s))"
  proof -
    have "map (\<lambda>msg. if msg_id msg = messageId
          then msg\<lparr>content := REGENERATED @ js_replace REGENERATED [] (content msg)\<rparr>
          else msg) (messages s) = messages s"
      using that by (intro map_idI) auto
    then show ?thesis by (simp add: handleRegenerate_def)
  qed
  have one: "\<not> prefix (REGENERATED @ REGENERATED) (REGENERATED @ c)"
    if "\<not> sublist REGENERATED c" for c
    using that prefix_imp_sublist [of REGENERATED c] by auto
  show ?thesis
    using noop one
    by (simp add: idem) (simp add: handleRegenerate_def js_replace_absent)
qed

theorem regenerate_amended_witness:
  "content (messages (handleRegenerate 2 (handleRegenerate 2
      \<lparr>messages = [\<lparr>msg_id = 1, msg_type = User, content = ''A'', feedback = None,
                     msg_isLoading = False\<rparr>,
                    \<lparr>msg_id = 2, msg_type = Bot, content = ''B'', feedback = None,
                     msg_isLoading = False\<rparr>],
       message = [], isLoading = False, chatRef = None, awaiting = False\<rparr>)) ! 1)
     = ''[REGENERATED] B''
   \<and> messages (handleRegenerate 2
      \<lparr>messages = [\<lparr>msg_id = 1, msg_type = User, content = ''A'', feedback = None,
                     msg_isLoading = False\<rparr>,
                    \<lparr>msg_id = 2, msg_type = Bot, content = ''B'', feedback = None,
                     msg_isLoading = False\<rparr>],
       message = [], isLoading = False, chatRef = None, awaiting = False\<rparr>) ! 0
     = \<lparr>msg_id = 1, msg_type = User, content = ''A'', feedback = None, msg_isLoading = False\<rparr>
   \<and> handleRegenerate 7
      \<lparr>messages = [\<lparr>msg_id = 1, msg_type = User, content = ''A'', feedback = None,
                     msg_isLoading = False\<rparr>,
                    \<lparr>msg_id = 2, msg_type = Bot, content = ''B'', feedback = None,
                     msg_isLoading = False\<rparr>],
       message = [], isLoading = False, chatRef = None, awaiting = False\<rparr>
     = \<lparr>messages = [\<lparr>msg_id = 1, msg_type = User, content = ''A'', feedback = None,
                     msg_isLoading = False\<rparr>,
                    \<lparr>msg_id = 2, msg_type = Bot, content = ''B'', feedback = None,
                     msg_isLoading = False\<rparr>],
       message = [], isLoading = False, chatRef = None, awaiting = False\<rparr>"
proof -
  let ?s = "\<lparr>messages = [\<lparr>msg_id = 1, msg_type = User, content = ''A'', feedback = None,
                     msg_isLoading = False\<rparr>,
                    \<lparr>msg_id = 2, msg_type = Bot, content = ''B'', feedback = None,
                     msg_isLoading = False\<rparr>],
       message = [], isLoading = False, chatRef = None, awaiting = False\<rparr>"
  have h1: "1 < length (messages ?s)" "0 < length (messages ?s)"
    by simp_all
  have h2: "msg_id (messages ?s ! 1) = 2 \<and> \<not> sublist REGENERATED (content (messages ?s ! 1))"
    by (simp add: REGENERATED_def sublist_Cons_right)
  have h3: "msg_id (messages ?s ! 0) \<noteq> 2"
    by simp
  have h4: "7 \<notin> set (map msg_id (messages ?s))"
    by simp
  note w = regenerate_amended [of 2 ?s, THEN conjunct2, THEN conjunct1]
  have "content (messages (handleRegenerate 2 (handleRegenerate 2 ?s)) ! 1)
      = REGENERATED @ content (messages ?s ! 1)"
    by (rule w [THEN spec, THEN mp, OF h1(1), THEN conjunct2, THEN conjunct2, THEN mp, OF h2,
          THEN conjunct1])
  moreover have "messages (handleRegenerate 2 ?s) ! 0 = messages ?s ! 0"
    by (rule w [THEN spec, THEN mp, OF h1(2), THEN conjunct1, THEN mp, OF h3])
  moreover have "handleRegenerate 7 ?s = ?s"
    by (rule regenerate_amended [of 7 ?s, THEN conjunct2, THEN conjunct2, THEN conjunct1,
          THEN mp, OF h4])
  ultimately show ?thesis
    by (simp add: REGENERATED_def)
qed

text \<open>
  C7 as stated fails: the remote model answers with a text that starts with the marker
  twice; \<^verbatim>\<open>replace\<close> removes one occurrence only, so after two regenerations the content
  still starts with two markers.
\<close>

theorem regenerate_counterexample:
  "prefix (REGENERATED @ REGENERATED)
     (content (last (messages (run initial_state
        [Typing ''repeat'', Send 1700000000000 1700000000000 True,
         Settle (Returns ''[REGENERATED] [REGENERATED] hi''),
         Regenerate 1700000000001, Regenerate 1700000000001]))))"
  by (simp add: initial_state_def initial_messages_def handleSendMessage_def settle_def
      resolve_loading_def handleRegenerate_def REGENERATED_def trim_def is_ws_def Let_def)

section \<open>Feedback\<close>

text \<open>
  C8. \<^verbatim>\<open>handleFeedback\<close> changes only the \<open>feedback\<close> field of the turns with the given id:
  it becomes the given kind if it was different (absent or the other kind), and absent if it
  was that kind already. Hence toggling a kind twice on a turn whose feedback is not that
  kind (in particular, absent) leaves it absent; toggling \<open>Like\<close> and then \<open>Dislike\<close> leaves
  \<open>Dislike\<close>; and after a toggle the feedback is either absent or the kind just given, never
  the other one.
\<close>

theorem feedback_toggle:
  "length (messages (handleFeedback messageId feedbackType s)) = length (messages s)
   \<and> (\<forall>j < length (messages s).
        (msg_id (messages s ! j) \<noteq> messageId \<longrightarrow>
           messages (handleFeedback messageId feedbackType s) ! j = messages s ! j)
      \<and> (msg_id (messages s ! j) = messageId \<longrightarrow>
           messages (handleFeedback messageId feedbackType s) ! j =
             (messages s ! j)\<lparr>feedback :=
                (if feedback (messages s ! j) = Some feedbackType then None
                 else Some feedbackType)\<rparr>
           \<and> (feedback (messages s ! j) \<noteq> Some feedbackType \<longrightarrow>
                feedback (messages (handleFeedback messageId feedbackType s) ! j)
                  = Some feedbackType)
           \<and> (feedback (messages s ! j) = Some feedbackType \<longrightarrow>
                feedback (messages (handleFeedback messageId feedbackType s) ! j) = None)
           \<and> feedback (messages (handleFeedback messageId feedbackType s) ! j)
                \<in> {None, Some feedbackType}
           \<and> (feedback (messages s ! j) \<noteq> Some feedbackType \<longrightarrow>
                feedback (messages (handleFeedback messageId feedbackType
                   (handleFeedback messageId feedbackType s)) ! j) = None)
           \<and> (feedback (messages s ! j) = None \<longrightarrow>
                feedback (messages (handleFeedback messageId Like
                   (handleFeedback messageId Like s)) ! j) = None)
           \<and> feedback (messages (handleFeedback messageId Dislike
                   (handleFeedback messageId Like s)) ! j) = Some Dislike))
   \<and> isLoading (handleFeedback messageId feedbackType s) = isLoading s
   \<and> chatRef (handleFeedback messageId feedbackType s) = chatRef s
   \<and> message (handleFeedback messageId feedbackType s) = message s"
  by (simp add: handleFeedback_def)

theorem feedback_toggle_witness:
  "feedback (messages (handleFeedback 2 Like initial_state) ! 1) = Some Like
   \<and> feedback (messages (handleFeedback 2 Like (handleFeedback 2 Like initial_state)) ! 1) = None
   \<and> feedback (messages (handleFeedback 2 Dislike (handleFeedback 2 Like initial_state)) ! 1)
       = Some Dislike
   \<and> messages (handleFeedback 2 Like initial_state) ! 0 = messages initial_state ! 0"
proof -
  have h1: "1 < length (messages initial_state)" "0 < length (messages initial_state)"
    by (simp_all add: initial_state_def initial_messages_def)
  have h2: "msg_id (messages initial_state ! 1) = 2"
    "feedback (messages initial_state ! 1) \<noteq> Some Like"
    "feedback (messages initial_state ! 1) = None"
    "msg_id (messages initial_state ! 0) \<noteq> 2"
    by (simp_all add: initial_state_def initial_messages_def)
  note w = feedback_toggle [of 2 Like initial_state, THEN conjunct2, THEN conjunct1, THEN spec,
      THEN mp]
  from w [OF h1(1)] h2 w [OF h1(2)] show ?thesis
    by blast
qed

section \<open>Settlement\<close>

text \<open>
  C10. When the suspended call settles, the text (the returned text, or the apology text on
  failure) is written into every turn whose loading flag is set at that moment, whatever its
  id, and the flag of those turns is cleared; the other turns are unchanged, and \<open>isLoading\<close>
  becomes false. In particular, if a reset has emptied the list while the call was in flight,
  the text is discarded: the list stays empty and \<open>isLoading\<close> still becomes false.
\<close>

theorem settle_keyed_by_flag:
  "awaiting s \<longrightarrow>
     \<not> isLoading (settle r s)
     \<and> length (messages (settle r s)) = length (messages s)
     \<and> (\<forall>j < length (messages s).
          (msg_isLoading (messages s ! j) \<longrightarrow>
             messages (settle r s) ! j =
               (messages s ! j)\<lparr>content :=
                  (case r of Returns aiResponseText \<Rightarrow> aiResponseText | Throws \<Rightarrow> apology),
                msg_isLoading := False\<rparr>)
          \<and> (\<not> msg_isLoading (messages s ! j) \<longrightarrow> messages (settle r s) ! j = messages s ! j))
     \<and> (messages s = [] \<longrightarrow> messages (settle r s) = [])
     \<and> messages (settle r (handleNewChat s)) = []
     \<and> \<not> isLoading (settle r (handleNewChat s))"
  by (simp add: messages_settle flags_settle length_resolve_loading nth_resolve_loading
      flags_others settled_text_def)
     (simp add: handleNewChat_def resolve_loading_def)

theorem settle_keyed_by_flag_witness:
  "awaiting (run initial_state [Typing ''Hello'', Send 1700000000000 1700000000000 True, NewChat])
   \<and> isLoading (run initial_state [Typing ''Hello'', Send 1700000000000 1700000000000 True, NewChat])
   \<and> messages (settle (Returns ''Hi'')
        (run initial_state [Typing ''Hello'', Send 1700000000000 1700000000000 True, NewChat])) = []
   \<and> \<not> isLoading (settle (Returns ''Hi'')
        (run initial_state [Typing ''Hello'', Send 1700000000000 1700000000000 True, NewChat]))"
proof -
  let ?s = "run initial_state [Typing ''Hello'', Send 1700000000000 1700000000000 True, NewChat]"
  have h: "awaiting ?s" "isLoading ?s" "messages ?s = []"
    by (simp_all add: initial_state_def handleSendMessage_def handleNewChat_def trim_def
        is_ws_def Let_def)
  from settle_keyed_by_flag [of ?s "Returns ''Hi''", THEN mp, OF h(1)] h
  show ?thesis by blast
qed

end
